theory Spec2Isabelle
  imports Main "HOL-Library.Sublist"
begin

section \<open>get-workflow-version: the reusable-workflow reference parser\<close>

text \<open>
  The source is \<^verbatim>\<open>src/get_workflow_version/main.py\<close>. Python strings are modelled as
  \<^typ>\<open>string\<close>, read as the UTF-8 bytes of the text. The pattern of
  \<^verbatim>\<open>from_github_api\<close> only tests characters against line feed, \<^verbatim>\<open>@\<close> and the ASCII
  characters of the marker, none of which occurs inside a multi-byte UTF-8 sequence, so matching
  byte by byte splits a string where matching code point by code point does.
\<close>

subsection \<open>The dataclass\<close>

text \<open>
  \<^verbatim>\<open>@dataclasses.dataclass(frozen=True) class ReusableWorkflow\<close> (lines 14-19): four
  string fields, compared and hashed field by field.
\<close>

record ReusableWorkflow =
  sha :: string
  repository :: string
  file_name :: string
  ref :: string

subsection \<open>The pattern of \<^verbatim>\<open>from_github_api\<close> (lines 24-27)\<close>

text \<open>
  \<^verbatim>\<open>re.fullmatch(r"(?P<repository>.*?)/\.github/workflows/(?P<file_name>.*?)@(?P<ref>.*?)", path)\<close>

  No flag is given, so \<^verbatim>\<open>.\<close> matches every character except line feed. The three groups
  are lazy stars: at each position the backtracking matcher first tries what follows the group
  and, only when that fails, lets the group take one more character. Each function below is
  one group together with everything to its right, and returns the groups captured from its
  position on, or \<open>None\<close> when no match exists from there.
\<close>

definition marker :: string where
  "marker = ''/.github/workflows/''"

definition dot :: "char \<Rightarrow> bool" where
  "dot c \<longleftrightarrow> c \<noteq> CHR 0x0A"

text \<open>\<^verbatim>\<open>(?P<ref>.*?)\<close> followed by the end of the string (\<^verbatim>\<open>fullmatch\<close>).\<close>

fun match_ref :: "string \<Rightarrow> string option" where
  "match_ref [] = Some []"
| "match_ref (c # cs) =
     (if dot c then map_option (\<lambda>r. c # r) (match_ref cs) else None)"

text \<open>\<^verbatim>\<open>(?P<file_name>.*?)@\<close> followed by the ref group.\<close>

fun match_file_name :: "string \<Rightarrow> (string \<times> string) option" where
  "match_file_name [] = None"
| "match_file_name (c # cs) =
     (case (if c = CHR ''@'' then match_ref cs else None) of
        Some r \<Rightarrow> Some ([], r)
      | None \<Rightarrow>
          if dot c then map_option (\<lambda>(f, r). (c # f, r)) (match_file_name cs) else None)"

text \<open>The literal \<^verbatim>\<open>/\.github/workflows/\<close> followed by the file-name group.\<close>

definition after_marker :: "string \<Rightarrow> (string \<times> string) option" where
  "after_marker s =
     (if prefix marker s then match_file_name (drop (length marker) s) else None)"

text \<open>\<^verbatim>\<open>(?P<repository>.*?)\<close> followed by the marker.\<close>

fun match_repository :: "string \<Rightarrow> (string \<times> string \<times> string) option" where
  "match_repository [] = map_option (\<lambda>(f, r). ([], f, r)) (after_marker [])"
| "match_repository (c # cs) =
     (case after_marker (c # cs) of
        Some (f, r) \<Rightarrow> Some ([], f, r)
      | None \<Rightarrow>
          if dot c then map_option (\<lambda>(p, f, r). (c # p, f, r)) (match_repository cs)
          else None)"

subsection \<open>Errors and \<^verbatim>\<open>from_github_api\<close> (lines 21-29)\<close>

datatype error =
    AssertionError
  | Exception string
  | ValueError string
  | HTTPError int string
  | JSONError
  | KeyError
  | InvalidHeader string

text \<open>
  \<^verbatim>\<open>assert match\<close> raises \<^verbatim>\<open>AssertionError\<close> when \<^verbatim>\<open>fullmatch\<close> returned
  \<^verbatim>\<open>None\<close>; otherwise the three named groups and \<^verbatim>\<open>sha\<close> fill the dataclass.
\<close>

definition from_github_api :: "string \<Rightarrow> string \<Rightarrow> error + ReusableWorkflow" where
  "from_github_api path sha' =
     (case match_repository path of
        None \<Rightarrow> Inl AssertionError
      | Some (p, f, r) \<Rightarrow>
          Inr \<lparr>sha = sha', repository = p, file_name = f, ref = r\<rparr>)"

section \<open>The command \<^verbatim>\<open>main\<close> (lines 43-142)\<close>

subsection \<open>What the command reads from outside\<close>

text \<open>
  One element of the \<^verbatim>\<open>referenced_workflows\<close> array of the API's JSON body. The call
  \<^verbatim>\<open>from_github_api(**workflow)\<close> reads the keys \<^verbatim>\<open>path\<close> and \<^verbatim>\<open>sha\<close>; every other
  key is absorbed by \<^verbatim>\<open>**_\<close> and never read, so it is not part of the model.
\<close>

record referenced_workflow =
  json_path :: string
  json_sha :: string

text \<open>
  A \<^verbatim>\<open>requests.Response\<close>, as far as \<^verbatim>\<open>main\<close> reads it: the status code, and what
  \<^verbatim>\<open>response.json()["referenced_workflows"]\<close> evaluates to. \<open>None\<close> stands for a body that
  is not JSON or has no such key; the expression then raises (a JSON decoding error or a
  \<^verbatim>\<open>KeyError\<close>), and the model has the single tag \<open>JSONError\<close> for both.
\<close>

record response =
  status_code :: int
  referenced_workflows :: "referenced_workflow list option"

text \<open>
  The surroundings of one run: the two environment variables, the HTTP transport
  (\<^verbatim>\<open>requests.get(url, headers=headers)\<close>), and two pieces of the Python runtime that the
  source relies on but does not define: \<^verbatim>\<open>repr\<close> on strings (used by the \<^verbatim>\<open>{name=}\<close>
  fields of the f-strings) and the order in which a \<^verbatim>\<open>set\<close> is iterated, which depends on
  the hashes of its elements. A Python \<^verbatim>\<open>set\<close> of dataclass values is modelled as a list
  without duplicates; \<open>set_order\<close> turns it into the sequence a \<^verbatim>\<open>for\<close> loop visits.
\<close>

record env =
  GH_TOKEN :: "string option"
  GITHUB_OUTPUT :: "string option"
  http_get :: "string \<Rightarrow> (string \<times> string) list \<Rightarrow> response"
  repr_str :: "string \<Rightarrow> string"
  set_order :: "ReusableWorkflow list \<Rightarrow> ReusableWorkflow list"

text \<open>
  What a successful run does: the text written to standard output, and the text appended to
  the file named by \<^verbatim>\<open>GITHUB_OUTPUT\<close> (path and text), if any.
\<close>

record outcome =
  printed :: string
  appended :: "(string \<times> string) option"

subsection \<open>Python built-ins used by \<^verbatim>\<open>main\<close>\<close>

text \<open>Truth value of \<^verbatim>\<open>os.environ.get(NAME)\<close>: \<^verbatim>\<open>None\<close> and the empty string are false.\<close>

definition truthy :: "string option \<Rightarrow> bool" where
  "truthy v = (case v of None \<Rightarrow> False | Some s \<Rightarrow> s \<noteq> [])"

text \<open>Decimal rendering of an \<^verbatim>\<open>int\<close>, as \<^verbatim>\<open>str\<close> and \<^verbatim>\<open>repr\<close> give it.\<close>

fun str_nat :: "nat \<Rightarrow> string" where
  "str_nat n =
     (if n < 10 then [char_of (48 + n)]
      else str_nat (n div 10) @ [char_of (48 + n mod 10)])"

declare str_nat.simps [simp del]

definition str_int :: "int \<Rightarrow> string" where
  "str_int i = (if i < 0 then CHR ''-'' # str_nat (nat (- i)) else str_nat (nat i))"

text \<open>
  \<^verbatim>\<open>Response.raise_for_status()\<close> of the \<^verbatim>\<open>requests\<close> library raises \<^verbatim>\<open>HTTPError\<close>
  exactly for the client and server error statuses.
\<close>

definition raises_for_status :: "response \<Rightarrow> bool" where
  "raises_for_status r \<longleftrightarrow> 400 \<le> status_code r \<and> status_code r < 600"

subsection \<open>Request headers and URLs (lines 84-94, 104-106)\<close>

definition base_headers :: "(string \<times> string) list" where
  "base_headers =
     [(''Accept'', ''application/vnd.github+json''),
      (''X-GitHub-Api-Version'', ''2022-11-28'')]"

definition request_headers :: "string option \<Rightarrow> (string \<times> string) list" where
  "request_headers token =
     base_headers @
     (case token of
        None \<Rightarrow> []
      | Some t \<Rightarrow> if t \<noteq> [] then [(''Authorization'', ''Bearer '' @ t)] else [])"

definition run_url :: "string \<Rightarrow> string \<Rightarrow> int \<Rightarrow> string" where
  "run_url github_api_url caller_repository caller_run_id =
     github_api_url @ ''/repos/'' @ caller_repository @ ''/actions/runs/'' @
     str_int caller_run_id"

definition repository_url :: "string \<Rightarrow> string \<Rightarrow> string" where
  "repository_url github_api_url caller_repository =
     github_api_url @ ''/repos/'' @ caller_repository"

subsection \<open>The messages\<close>

definition permission_message :: string where
  "permission_message =
     ''Ensure that GitHub job has `permissions: actions: read`. GitHub API call 403 forbidden'' @
     [CHR 0x0A] @
     ''https://docs.github.com/en/actions/security-guides/automatic-token-authentication#modifying-the-permissions-for-the-github_token''"

definition repository_not_found_token_message :: "env \<Rightarrow> string \<Rightarrow> string" where
  "repository_not_found_token_message e caller_repository =
     ''caller_repository='' @ repr_str e caller_repository @
     '' not found. Check if `github-token` input has correct permissions''"

definition repository_not_found_private_message :: "env \<Rightarrow> string \<Rightarrow> string" where
  "repository_not_found_private_message e caller_repository =
     ''caller_repository='' @ repr_str e caller_repository @
     '' not found. If repository is private, pass `github-token` input to authenticate to GitHub''"

definition run_not_found_message :: "int \<Rightarrow> string" where
  "run_not_found_message caller_run_id =
     ''Workflow run not found. Check if caller_run_id='' @ str_int caller_run_id @
     '' is valid''"

definition no_reference_message :: "env \<Rightarrow> string \<Rightarrow> string \<Rightarrow> string" where
  "no_reference_message e reusable_workflow_file_name reusable_workflow_repository =
     ''No reference found for reusable_workflow_file_name='' @
     repr_str e reusable_workflow_file_name @
     '' reusable_workflow_repository='' @ repr_str e reusable_workflow_repository"

definition multiple_versions_header :: "env \<Rightarrow> string \<Rightarrow> string \<Rightarrow> string" where
  "multiple_versions_header e reusable_workflow_file_name reusable_workflow_repository =
     ''Cannot resolve multiple versions found for reusable_workflow_file_name='' @
     repr_str e reusable_workflow_file_name @
     '' reusable_workflow_repository='' @ repr_str e reusable_workflow_repository @ '':''"

text \<open>
  One step of the loop of lines 135-136: a line feed, the bullet U+2022 (three bytes in
  UTF-8), a space, the ref, and the commit in parentheses.
\<close>

definition version_line :: "ReusableWorkflow \<Rightarrow> string" where
  "version_line workflow =
     [CHR 0x0A, CHR 0xE2, CHR 0x80, CHR 0xA2] @ '' '' @ ref workflow @
     '' ('' @ sha workflow @ '')''"

definition multiple_versions_message ::
  "env \<Rightarrow> string \<Rightarrow> string \<Rightarrow> ReusableWorkflow list \<Rightarrow> string" where
  "multiple_versions_message e reusable_workflow_file_name reusable_workflow_repository ws =
     foldl (\<lambda>message workflow. message @ version_line workflow)
       (multiple_versions_header e reusable_workflow_file_name reusable_workflow_repository)
       (set_order e ws)"

subsection \<open>The two requests (lines 91-94 and 104-106)\<close>

text \<open>Both requests send the same headers, built from \<^verbatim>\<open>GH_TOKEN\<close>.\<close>

definition run_response :: "env \<Rightarrow> string \<Rightarrow> int \<Rightarrow> string \<Rightarrow> response" where
  "run_response e caller_repository caller_run_id github_api_url =
     http_get e (run_url github_api_url caller_repository caller_run_id)
       (request_headers (GH_TOKEN e))"

definition repository_response :: "env \<Rightarrow> string \<Rightarrow> string \<Rightarrow> response" where
  "repository_response e caller_repository github_api_url =
     http_get e (repository_url github_api_url caller_repository)
       (request_headers (GH_TOKEN e))"

subsection \<open>Classifying a failed run-metadata request (lines 95-118)\<close>

text \<open>
  The handler of \<^verbatim>\<open>requests.HTTPError\<close>. Every branch raises; the last one re-raises the
  caught exception, which carries the status and the URL of the first request. The second
  request is only made on the 404 branch.
\<close>

definition classify_failure :: "env \<Rightarrow> string \<Rightarrow> int \<Rightarrow> string \<Rightarrow> response \<Rightarrow> error" where
  "classify_failure e caller_repository caller_run_id github_api_url resp =
     (if status_code resp = 403 then Exception permission_message
      else if status_code resp = 404 then
        (let resp2 = repository_response e caller_repository github_api_url in
         if status_code resp2 = 404 then
           (if truthy (GH_TOKEN e)
            then Exception (repository_not_found_token_message e caller_repository)
            else Exception (repository_not_found_private_message e caller_repository))
         else Exception (run_not_found_message caller_run_id))
      else HTTPError (status_code resp)
             (run_url github_api_url caller_repository caller_run_id))"

subsection \<open>Parsing, filtering and choosing (lines 119-138)\<close>

text \<open>
  The list comprehension of lines 119-122: the entries are parsed from left to right and the
  first \<^verbatim>\<open>AssertionError\<close> ends the run.
\<close>

fun all_workflows :: "referenced_workflow list \<Rightarrow> error + ReusableWorkflow list" where
  "all_workflows [] = Inr []"
| "all_workflows (w # ws) =
     (case from_github_api (json_path w) (json_sha w) of
        Inl err \<Rightarrow> Inl err
      | Inr x \<Rightarrow>
          (case all_workflows ws of
             Inl err \<Rightarrow> Inl err
           | Inr xs \<Rightarrow> Inr (x # xs)))"

text \<open>
  The set comprehension of lines 123-128. Adding a value that is already in a Python set
  leaves the set as it is, which on the list model is \<^const>\<open>remdups\<close>.
\<close>

definition workflows :: "string \<Rightarrow> string \<Rightarrow> ReusableWorkflow list \<Rightarrow> ReusableWorkflow list" where
  "workflows reusable_workflow_repository reusable_workflow_file_name all =
     remdups
       (filter
          (\<lambda>workflow. repository workflow = reusable_workflow_repository \<and>
             file_name workflow = reusable_workflow_file_name)
          all)"

text \<open>\<^verbatim>\<open>set.pop()\<close>: some element of the set; \<^verbatim>\<open>KeyError\<close> on the empty set.\<close>

definition pop :: "ReusableWorkflow list \<Rightarrow> error + ReusableWorkflow" where
  "pop ws = (case ws of [] \<Rightarrow> Inl KeyError | workflow # _ \<Rightarrow> Inr workflow)"

text \<open>
  Lines 129-138. When \<^verbatim>\<open>pop\<close> is reached the set has exactly one element, so the element
  it returns does not depend on the iteration order.
\<close>

definition choose_workflow ::
  "env \<Rightarrow> string \<Rightarrow> string \<Rightarrow> ReusableWorkflow list \<Rightarrow> error + ReusableWorkflow" where
  "choose_workflow e reusable_workflow_repository reusable_workflow_file_name ws =
     (if ws = [] then
        Inl (ValueError
               (no_reference_message e reusable_workflow_file_name
                  reusable_workflow_repository))
      else if length ws > 1 then
        Inl (ValueError
               (multiple_versions_message e reusable_workflow_file_name
                  reusable_workflow_repository ws))
      else pop ws)"

text \<open>Lines 119-138 together: from the decoded body to the chosen workflow.\<close>

definition resolve ::
  "env \<Rightarrow> string \<Rightarrow> string \<Rightarrow> response \<Rightarrow> error + ReusableWorkflow" where
  "resolve e reusable_workflow_repository reusable_workflow_file_name resp =
     (case referenced_workflows resp of
        None \<Rightarrow> Inl JSONError
      | Some entries \<Rightarrow>
          (case all_workflows entries of
             Inl err \<Rightarrow> Inl err
           | Inr all \<Rightarrow>
               choose_workflow e reusable_workflow_repository reusable_workflow_file_name
                 (workflows reusable_workflow_repository reusable_workflow_file_name all)))"

subsection \<open>Reporting (lines 139-142)\<close>

definition report :: "env \<Rightarrow> ReusableWorkflow \<Rightarrow> outcome" where
  "report e workflow =
     \<lparr>printed =
        ''Reusable workflow version: '' @ sha workflow @ '' (ref: '' @ ref workflow @ '')'' @
        [CHR 0x0A],
      appended =
        (case GITHUB_OUTPUT e of
           None \<Rightarrow> None
         | Some output \<Rightarrow>
             if output \<noteq> [] then Some (output, ''sha='' @ sha workflow @ [CHR 0x0A])
             else None)\<rparr>"

subsection \<open>The command\<close>

text \<open>
  The arguments arrive after Typer's callbacks have run (\<^verbatim>\<open>validate_github_repository\<close>,
  \<^verbatim>\<open>parse_github_api_url\<close>); \<^verbatim>\<open>main\<close> itself does not look at their shape.
\<close>

definition main ::
  "env \<Rightarrow> string \<Rightarrow> int \<Rightarrow> string \<Rightarrow> string \<Rightarrow> string \<Rightarrow> error + outcome" where
  "main e caller_repository caller_run_id reusable_workflow_repository
     reusable_workflow_file_name github_api_url =
     (let resp = run_response e caller_repository caller_run_id github_api_url
      in if raises_for_status resp
         then Inl (classify_failure e caller_repository caller_run_id github_api_url resp)
         else
           (case resolve e reusable_workflow_repository reusable_workflow_file_name resp of
              Inl err \<Rightarrow> Inl err
            | Inr workflow \<Rightarrow> Inr (report e workflow)))"

subsection \<open>What \<^verbatim>\<open>requests.get\<close> does before it sends\<close>

text \<open>
  The definitions above describe the run from the first response on. The call
  \<^verbatim>\<open>requests.get(url, headers=headers)\<close> of line 91 does not always get that far: the
  \<^verbatim>\<open>requests\<close> library and, below it, \<^verbatim>\<open>http.client\<close> check every header value first,
  and the exception they raise quotes the value. The call is outside the \<^verbatim>\<open>try\<close>, so the
  exception leaves \<^verbatim>\<open>main\<close>. This is library code, modelled from its patterns; header
  values are taken to be ASCII, and a network that does not answer is not modelled.

  \<^verbatim>\<open>requests.utils.check_header_validity\<close> matches the value against
  \<^verbatim>\<open>^\S[^\r\n]*$|^$\<close>, where \<^verbatim>\<open>$\<close> also matches before a line feed that ends the string.
\<close>

definition is_space :: "char \<Rightarrow> bool" where
  "is_space c \<longleftrightarrow>
     c \<in> set [CHR 0x09, CHR 0x0A, CHR 0x0B, CHR 0x0C, CHR 0x0D,
              CHR 0x1C, CHR 0x1D, CHR 0x1E, CHR 0x1F, CHR 0x20]"

text \<open>\<^verbatim>\<open>[^\r\n]*$\<close>: no carriage return and no line feed up to the end, or up to a final line feed.\<close>

fun no_return :: "string \<Rightarrow> bool" where
  "no_return [] = True"
| "no_return [c] = (c \<noteq> CHR 0x0D)"
| "no_return (c # d # cs) = (c \<noteq> CHR 0x0D \<and> c \<noteq> CHR 0x0A \<and> no_return (d # cs))"

definition clean_header_value :: "string \<Rightarrow> bool" where
  "clean_header_value v =
     (case v of
        [] \<Rightarrow> True
      | c # cs \<Rightarrow> (\<not> is_space c \<and> no_return cs) \<or> v = [CHR 0x0A])"

text \<open>
  \<^verbatim>\<open>http.client\<close> searches the value for \<^verbatim>\<open>\n(?![ \t])|\r(?![ \t\n])\<close> in
  \<^verbatim>\<open>putheader\<close>.
\<close>

fun is_illegal_header_value :: "string \<Rightarrow> bool" where
  "is_illegal_header_value [] = False"
| "is_illegal_header_value (c # cs) =
     ((c = CHR 0x0A \<and> (case cs of [] \<Rightarrow> True | d # _ \<Rightarrow> d \<noteq> CHR 0x20 \<and> d \<noteq> CHR 0x09)) \<or>
      (c = CHR 0x0D \<and>
         (case cs of [] \<Rightarrow> True | d # _ \<Rightarrow> d \<noteq> CHR 0x20 \<and> d \<noteq> CHR 0x09 \<and> d \<noteq> CHR 0x0A)) \<or>
      is_illegal_header_value cs)"

text \<open>
  What the call raises for the given headers, if anything: \<^verbatim>\<open>requests\<close> checks all of them
  when it prepares the request and raises \<^verbatim>\<open>InvalidHeader\<close> with the \<^verbatim>\<open>repr\<close> of the
  value; \<^verbatim>\<open>http.client\<close> checks them when it writes the request and raises
  \<^verbatim>\<open>ValueError('Invalid header value %r')\<close> with the \<^verbatim>\<open>repr\<close> of the encoded value, which
  for ASCII text is \<^verbatim>\<open>b\<close> followed by the \<^verbatim>\<open>repr\<close> of the string.
\<close>

definition raised_by_get :: "env \<Rightarrow> (string \<times> string) list \<Rightarrow> error option" where
  "raised_by_get e headers =
     (case find (\<lambda>(name, v). \<not> clean_header_value v) headers of
        Some (name, v) \<Rightarrow>
          Some (InvalidHeader
                  (''Invalid leading whitespace, reserved character(s), or return character(s) in header value: '' @
                   repr_str e v))
      | None \<Rightarrow>
          (case find (\<lambda>(name, v). is_illegal_header_value v) headers of
             Some (name, v) \<Rightarrow> Some (ValueError (''Invalid header value b'' @ repr_str e v))
           | None \<Rightarrow> None))"

text \<open>
  The command as it runs: the first \<^verbatim>\<open>requests.get\<close> either raises, or the run goes on as
  \<^verbatim>\<open>main\<close> describes. The second \<^verbatim>\<open>requests.get\<close> (line 104) sends the same headers, so it
  passes the checks that the first one passed.
\<close>

definition invoke ::
  "env \<Rightarrow> string \<Rightarrow> int \<Rightarrow> string \<Rightarrow> string \<Rightarrow> string \<Rightarrow> error + outcome" where
  "invoke e caller_repository caller_run_id reusable_workflow_repository
     reusable_workflow_file_name github_api_url =
     (case raised_by_get e (request_headers (GH_TOKEN e)) of
        Some err \<Rightarrow> Inl err
      | None \<Rightarrow>
          main e caller_repository caller_run_id reusable_workflow_repository
            reusable_workflow_file_name github_api_url)"

section \<open>Vocabulary for the properties\<close>

text \<open>
  The least a path needs in order to be parsed: the marker occurs somewhere in the string and
  an \<^verbatim>\<open>@\<close> occurs after it. Lemma \<open>marker_then_at_iff\<close> below shows that this is the same
  as the string being \<open>R @ marker @ F @ ''@'' @ Ref\<close> for some \<open>R\<close>, \<open>F\<close> and \<open>Ref\<close>,
  whatever these three are. It is weaker than the shape the specification describes, which
  also asks for a file name without \<^verbatim>\<open>/\<close> and for non-empty parts.
\<close>

fun marker_then_at :: "string \<Rightarrow> bool" where
  "marker_then_at [] = False"
| "marker_then_at (c # cs) =
     ((prefix marker (c # cs) \<and> CHR ''@'' \<in> set (drop (length marker) (c # cs))) \<or>
      marker_then_at cs)"

text \<open>The filter condition of lines 126-127.\<close>

definition is_target :: "string \<Rightarrow> string \<Rightarrow> ReusableWorkflow \<Rightarrow> bool" where
  "is_target reusable_workflow_repository reusable_workflow_file_name workflow \<longleftrightarrow>
     repository workflow = reusable_workflow_repository \<and>
     file_name workflow = reusable_workflow_file_name"

text \<open>The pair that tells two versions of the same workflow apart.\<close>

definition version :: "ReusableWorkflow \<Rightarrow> string \<times> string" where
  "version workflow = (ref workflow, sha workflow)"

subsection \<open>Concrete surroundings for the examples\<close>

text \<open>
  \<^verbatim>\<open>repr\<close> of a string of printable ASCII characters with no quote and no backslash:
  the string between single quotes.
\<close>

definition quoted :: "string \<Rightarrow> string" where
  "quoted s = [CHR 0x27] @ s @ [CHR 0x27]"

text \<open>
  A transport that answers the repository-existence request for \<^verbatim>\<open>octocat/Hello-World\<close>
  at \<^verbatim>\<open>https://api.github.com\<close> with one response and every other request with another,
  whatever the headers; no output file; a set iterated in insertion order.
\<close>

definition example_env :: "string option \<Rightarrow> response \<Rightarrow> response \<Rightarrow> env" where
  "example_env token run repo =
     \<lparr>GH_TOKEN = token,
      GITHUB_OUTPUT = None,
      http_get = (\<lambda>url headers.
        if url = ''https://api.github.com/repos/octocat/Hello-World'' then repo else run),
      repr_str = quoted,
      set_order = (\<lambda>ws. ws)\<rparr>"

definition example_main :: "env \<Rightarrow> error + outcome" where
  "example_main e =
     main e ''octocat/Hello-World'' 8938022468 ''acme/infra'' ''build.yaml''
       ''https://api.github.com''"

definition status_only :: "int \<Rightarrow> response" where
  "status_only code = \<lparr>status_code = code, referenced_workflows = None\<rparr>"

definition ok_response :: "referenced_workflow list \<Rightarrow> response" where
  "ok_response entries = \<lparr>status_code = 200, referenced_workflows = Some entries\<rparr>"

definition build_v2 :: referenced_workflow where
  "build_v2 =
     \<lparr>json_path = ''acme/infra/.github/workflows/build.yaml@v2.0.0'', json_sha = ''abc123''\<rparr>"

definition build_v3 :: referenced_workflow where
  "build_v3 =
     \<lparr>json_path = ''acme/infra/.github/workflows/build.yaml@v3.0.0'', json_sha = ''def456''\<rparr>"

definition other_workflow :: referenced_workflow where
  "other_workflow =
     \<lparr>json_path = ''acme/infra/.github/workflows/lint.yaml@v1'', json_sha = ''0a1b2c''\<rparr>"

definition malformed_workflow :: referenced_workflow where
  "malformed_workflow = \<lparr>json_path = ''acme/infra/build.yaml'', json_sha = ''abc123''\<rparr>"

text \<open>
  \<^verbatim>\<open>repr\<close> of a string of printable ASCII characters, line feeds, carriage returns and
  tabs, with no quote: control characters and the backslash are written as escapes.
\<close>

fun escape :: "char \<Rightarrow> string" where
  "escape c =
     (if c = CHR 0x0A then [CHR 0x5C, CHR ''n'']
      else if c = CHR 0x0D then [CHR 0x5C, CHR ''r'']
      else if c = CHR 0x09 then [CHR 0x5C, CHR ''t'']
      else if c = CHR 0x5C then [CHR 0x5C, CHR 0x5C]
      else [c])"

definition escaped :: "string \<Rightarrow> string" where
  "escaped s = [CHR 0x27] @ concat (map escape s) @ [CHR 0x27]"

text \<open>A run with the given token in \<^verbatim>\<open>GH_TOKEN\<close> and a transport that answers every request.\<close>

definition token_env :: "string \<Rightarrow> env" where
  "token_env token =
     (example_env (Some token) (ok_response [build_v2]) (status_only 200))
       \<lparr>repr_str := escaped\<rparr>"

definition example_invoke :: "env \<Rightarrow> error + outcome" where
  "example_invoke e =
     invoke e ''octocat/Hello-World'' 8938022468 ''acme/infra'' ''build.yaml''
       ''https://api.github.com''"


section \<open>Properties of the pattern\<close>

subsection \<open>The ref and file-name groups\<close>

lemma dot_at: "dot CHR ''@''"
  by (simp add: dot_def)

lemma match_ref_eq: "match_ref s = (if list_all dot s then Some s else None)"
  by (induction s) auto

text \<open>
  Taking an \<^verbatim>\<open>@\<close> into the file name never helps: when the ref group fails after the
  first \<^verbatim>\<open>@\<close> there is a line feed further on, and it is still there after any later one.
  So the file name always ends at the first \<^verbatim>\<open>@\<close>.
\<close>

lemma match_file_name_eq:
  "match_file_name s =
     (if list_all dot s \<and> CHR ''@'' \<in> set s
      then Some (takeWhile (\<lambda>c. c \<noteq> CHR ''@'') s, tl (dropWhile (\<lambda>c. c \<noteq> CHR ''@'') s))
      else None)"
proof (induction s)
  case Nil
  show ?case by simp
next
  case (Cons c cs)
  show ?case
  proof (cases "c = CHR ''@''")
    case True
    with Cons show ?thesis by (simp add: match_ref_eq dot_at)
  next
    case False
    with Cons show ?thesis by simp
  qed
qed

lemma match_file_name_append:
  assumes "list_all dot F" "CHR ''@'' \<notin> set F" "list_all dot Ref"
  shows "match_file_name (F @ CHR ''@'' # Ref) = Some (F, Ref)"
proof -
  have "takeWhile (\<lambda>c. c \<noteq> CHR ''@'') (F @ CHR ''@'' # Ref) = F"
    using assms(2) by (induction F) auto
  moreover have "dropWhile (\<lambda>c. c \<noteq> CHR ''@'') (F @ CHR ''@'' # Ref) = CHR ''@'' # Ref"
    using assms(2) by (induction F) auto
  ultimately show ?thesis
    using assms by (simp add: match_file_name_eq dot_at)
qed

lemma match_file_name_SomeD:
  assumes "match_file_name s = Some (f, r)"
  shows "s = f @ CHR ''@'' # r \<and> CHR ''@'' \<notin> set f \<and> list_all dot f \<and> list_all dot r"
proof -
  let ?P = "\<lambda>c. c \<noteq> CHR ''@''"
  from assms have d: "list_all dot s" and a: "CHR ''@'' \<in> set s"
    and f: "f = takeWhile ?P s" and r: "r = tl (dropWhile ?P s)"
    by (auto simp: match_file_name_eq split: if_splits)
  from a have ne: "dropWhile ?P s \<noteq> []" by simp
  then have "hd (dropWhile ?P s) = CHR ''@''"
    using hd_dropWhile[of ?P s] by simp
  with ne r have dw: "dropWhile ?P s = CHR ''@'' # r"
    by (cases "dropWhile ?P s") auto
  have "s = takeWhile ?P s @ dropWhile ?P s" by simp
  with f dw have s: "s = f @ CHR ''@'' # r" by simp
  have nf: "CHR ''@'' \<notin> set f"
    using set_takeWhileD[of "CHR ''@''" ?P s] by (auto simp: f)
  from d have "list_all dot (f @ CHR ''@'' # r)" using s by simp
  then have "list_all dot f" "list_all dot r" by simp_all
  with s nf show ?thesis by simp
qed

subsection \<open>The marker\<close>

lemma length_marker: "length marker = 19"
  by (simp add: marker_def)

lemma dot_marker: "list_all dot marker"
  by (simp add: marker_def dot_def)

lemma butlast_marker: "butlast marker = ''/.github/workflows''"
  by (simp add: marker_def)

lemma after_marker_append: "after_marker (marker @ s) = match_file_name s"
  by (simp add: after_marker_def)

lemma after_marker_SomeD:
  "after_marker s = Some (f, r) \<Longrightarrow>
     s = marker @ f @ CHR ''@'' # r \<and> CHR ''@'' \<notin> set f \<and> list_all dot f \<and> list_all dot r"
  by (auto simp: after_marker_def prefix_def split: if_splits dest: match_file_name_SomeD)

lemma in_set_drop_append: "n \<le> length xs \<Longrightarrow> y \<in> set ys \<Longrightarrow> y \<in> set (drop n (xs @ ys))"
  by simp

lemma after_marker_defined:
  assumes "prefix marker s" "list_all dot s" "CHR ''@'' \<in> set (drop (length marker) s)"
  shows "after_marker s \<noteq> None"
  using assms
  by (auto simp: after_marker_def match_file_name_eq list_all_iff dest: in_set_dropD)

subsection \<open>The repository group\<close>

text \<open>What a match says about the string.\<close>

lemma match_repository_SomeD:
  "match_repository s = Some (p, f, r) \<Longrightarrow>
     s = p @ marker @ f @ CHR ''@'' # r \<and> list_all dot p \<and> CHR ''@'' \<notin> set f \<and>
     list_all dot f \<and> list_all dot r"
proof (induction s arbitrary: p)
  case Nil
  then show ?case by (auto simp: after_marker_def marker_def)
next
  case (Cons c cs)
  show ?case
  proof (cases "after_marker (c # cs)")
    case (Some fr)
    with Cons.prems have "p = []" "fr = (f, r)" by (auto split: prod.splits)
    with Some show ?thesis using after_marker_SomeD[of "c # cs" f r] by simp
  next
    case None
    with Cons.prems obtain p' where c: "dot c" and p: "p = c # p'"
      and m: "match_repository cs = Some (p', f, r)"
      by (auto split: if_splits)
    from Cons.IH[OF m] c p show ?thesis by simp
  qed
qed

text \<open>
  The repository group stops at the first marker of the string: the marker does not begin
  anywhere inside the captured repository. An earlier marker would have been tried first, and
  with a match further to the right it would have succeeded.
\<close>

lemma match_repository_first:
  "match_repository s = Some (p, f, r) \<Longrightarrow> \<not> sublist marker (p @ butlast marker)"
proof (induction s arbitrary: p)
  case Nil
  then show ?case by (auto simp: after_marker_def marker_def)
next
  case (Cons c cs)
  show ?case
  proof (cases "after_marker (c # cs)")
    case (Some fr)
    with Cons.prems have "p = []" by (auto split: prod.splits)
    then show ?thesis by (simp add: marker_def sublist_Cons_right)
  next
    case None
    with Cons.prems obtain p' where c: "dot c" and p: "p = c # p'"
      and m: "match_repository cs = Some (p', f, r)"
      by (auto split: if_splits)
    note d = match_repository_SomeD[OF m]
    have ih: "\<not> sublist marker (p' @ butlast marker)" by (rule Cons.IH[OF m])
    have "\<not> prefix marker (c # p' @ butlast marker)"
    proof
      assume pre: "prefix marker (c # p' @ butlast marker)"
      have cs: "c # cs = (c # p' @ butlast marker) @ CHR ''/'' # f @ CHR ''@'' # r"
        using d by (simp add: marker_def)
      have 1: "prefix marker (c # cs)"
        using pre unfolding cs by (rule prefix_prefix)
      have 2: "list_all dot (c # cs)" using d c dot_marker dot_at by simp
      have 3: "CHR ''@'' \<in> set (drop (length marker) (c # cs))"
        unfolding cs by (rule in_set_drop_append) (simp_all add: length_marker)
      from after_marker_defined[OF 1 2 3] None show False by simp
    qed
    with ih p show ?thesis by (simp add: sublist_Cons_right)
  qed
qed

text \<open>Conversely, a string built around the first marker and the first \<^verbatim>\<open>@\<close> matches.\<close>

lemma match_repository_append:
  assumes "\<not> sublist marker (R @ butlast marker)" "list_all dot R"
    "list_all dot F" "CHR ''@'' \<notin> set F" "list_all dot Ref"
  shows "match_repository (R @ marker @ F @ CHR ''@'' # Ref) = Some (R, F, Ref)"
  using assms(1,2)
proof (induction R)
  case Nil
  have "marker @ F @ CHR ''@'' # Ref = CHR ''/'' # tl marker @ F @ CHR ''@'' # Ref"
    by (simp add: marker_def)
  moreover have "after_marker (marker @ F @ CHR ''@'' # Ref) = Some (F, Ref)"
    using assms(3-5) by (simp add: after_marker_append match_file_name_append)
  ultimately show ?case
    by (metis append_Nil match_repository.simps(2) option.simps(5) prod.simps(2))
next
  case (Cons c R)
  from Cons.prems have np: "\<not> prefix marker (c # R @ butlast marker)"
    and ns: "\<not> sublist marker (R @ butlast marker)" and c: "dot c" and R: "list_all dot R"
    by (simp_all add: sublist_Cons_right)
  have "\<not> prefix marker (c # R @ marker @ F @ CHR ''@'' # Ref)"
  proof
    assume pre: "prefix marker (c # R @ marker @ F @ CHR ''@'' # Ref)"
    have "c # R @ marker @ F @ CHR ''@'' # Ref =
            (c # R @ butlast marker) @ CHR ''/'' # F @ CHR ''@'' # Ref"
      by (simp add: marker_def)
    with pre have "prefix marker ((c # R @ butlast marker) @ CHR ''/'' # F @ CHR ''@'' # Ref)"
      by simp
    then have "prefix marker (c # R @ butlast marker) \<or>
      (\<exists>us. marker = (c # R @ butlast marker) @ us \<and>
            prefix us (CHR ''/'' # F @ CHR ''@'' # Ref))"
      by (simp only: prefix_append)
    with np obtain us where us: "marker = (c # R @ butlast marker) @ us" by blast
    then have "length marker = length ((c # R @ butlast marker) @ us)" by simp
    then have "us = []" by (simp add: length_marker)
    with us np show False by simp
  qed
  then have "after_marker (c # R @ marker @ F @ CHR ''@'' # Ref) = None"
    by (simp add: after_marker_def)
  with Cons.IH[OF ns R] c show ?case by simp
qed

subsection \<open>The marker followed by an \<^verbatim>\<open>@\<close>\<close>

lemma marker_then_at_iff:
  "marker_then_at path \<longleftrightarrow> (\<exists>R F Ref. path = R @ marker @ F @ ''@'' @ Ref)"
proof (induction path)
  case Nil
  show ?case by (simp add: marker_def)
next
  case (Cons c cs)
  show ?case
  proof
    assume "marker_then_at (c # cs)"
    then consider (here) "prefix marker (c # cs)"
        "CHR ''@'' \<in> set (drop (length marker) (c # cs))"
      | (later) "marker_then_at cs" by auto
    then show "\<exists>R F Ref. c # cs = R @ marker @ F @ ''@'' @ Ref"
    proof cases
      case here
      from here(1) obtain rest where rest: "c # cs = marker @ rest" by (auto simp: prefix_def)
      with here(2) have "CHR ''@'' \<in> set rest" by simp
      then obtain F Ref where "rest = F @ CHR ''@'' # Ref" by (auto dest: split_list)
      with rest have "c # cs = [] @ marker @ F @ ''@'' @ Ref" by simp
      then show ?thesis by blast
    next
      case later
      with Cons.IH obtain R F Ref where "cs = R @ marker @ F @ ''@'' @ Ref" by blast
      then have "c # cs = (c # R) @ marker @ F @ ''@'' @ Ref" by simp
      then show ?thesis by blast
    qed
  next
    assume "\<exists>R F Ref. c # cs = R @ marker @ F @ ''@'' @ Ref"
    then obtain R F Ref where eq: "c # cs = R @ marker @ F @ ''@'' @ Ref" by blast
    show "marker_then_at (c # cs)"
    proof (cases R)
      case Nil
      with eq have "c # cs = marker @ F @ ''@'' @ Ref" by simp
      then have "prefix marker (c # cs)" "CHR ''@'' \<in> set (drop (length marker) (c # cs))"
        by simp_all
      then show ?thesis by simp
    next
      case (Cons c' R')
      with eq have "cs = R' @ marker @ F @ ''@'' @ Ref" by simp
      with Cons.IH have "marker_then_at cs" by blast
      then show ?thesis by simp
    qed
  qed
qed

lemma match_repository_marker_then_at:
  assumes "match_repository path = Some x"
  shows "marker_then_at path"
proof -
  obtain p f r where "x = (p, f, r)" by (cases x) auto
  with assms have "path = p @ marker @ f @ ''@'' @ r"
    using match_repository_SomeD[of path p f r] by simp
  then show ?thesis unfolding marker_then_at_iff by blast
qed

subsection \<open>\<^verbatim>\<open>from_github_api\<close>\<close>

lemma from_github_api_InrD:
  assumes "from_github_api path C = Inr w"
  shows "sha w = C \<and> match_repository path = Some (repository w, file_name w, ref w)"
  using assms by (auto simp: from_github_api_def split: option.splits)

lemma from_github_api_InlD: "from_github_api path C = Inl err \<Longrightarrow> err = AssertionError"
  by (auto simp: from_github_api_def split: option.splits)

lemma from_github_api_no_marker:
  assumes "\<not> marker_then_at path"
  shows "from_github_api path C = Inl AssertionError"
  using assms match_repository_marker_then_at[of path]
  by (cases "match_repository path") (auto simp: from_github_api_def)

text \<open>
  The pattern matches exactly the strings that have the marker followed by an \<^verbatim>\<open>@\<close> and
  no line feed.
\<close>

lemma match_repository_complete:
  assumes "marker_then_at s" "list_all dot s"
  shows "match_repository s \<noteq> None"
  using assms
proof (induction s)
  case Nil
  then show ?case by simp
next
  case (Cons c cs)
  show ?case
  proof (cases "after_marker (c # cs)")
    case (Some fr)
    then show ?thesis by (cases fr) simp
  next
    case None
    have "\<not> (prefix marker (c # cs) \<and> CHR ''@'' \<in> set (drop (length marker) (c # cs)))"
      using after_marker_defined[of "c # cs"] Cons.prems(2) None by blast
    with Cons.prems(1) have "marker_then_at cs" by simp
    moreover from Cons.prems(2) have "dot c" "list_all dot cs" by simp_all
    ultimately show ?thesis using Cons.IH None by (auto split: prod.splits)
  qed
qed

lemma match_repository_line_feed:
  assumes "CHR 0x0A \<in> set s"
  shows "match_repository s = None"
proof (cases "match_repository s")
  case None
  then show ?thesis .
next
  case (Some x)
  obtain p f r where "x = (p, f, r)" by (cases x) auto
  with Some have d: "s = p @ marker @ f @ CHR ''@'' # r \<and> list_all dot p \<and>
      CHR ''@'' \<notin> set f \<and> list_all dot f \<and> list_all dot r"
    using match_repository_SomeD[of s p f r] by simp
  then have "list_all dot s" using dot_marker dot_at by simp
  with assms show ?thesis by (auto simp: list_all_iff dot_def)
qed

lemma from_github_api_fails_iff:
  "from_github_api path C = Inl AssertionError \<longleftrightarrow>
     \<not> marker_then_at path \<or> CHR 0x0A \<in> set path"
proof
  assume f: "from_github_api path C = Inl AssertionError"
  show "\<not> marker_then_at path \<or> CHR 0x0A \<in> set path"
  proof (rule ccontr)
    assume "\<not> (\<not> marker_then_at path \<or> CHR 0x0A \<in> set path)"
    then have "marker_then_at path" "list_all dot path"
      by (auto simp: list_all_iff dot_def)
    then have "match_repository path \<noteq> None" by (rule match_repository_complete)
    with f show False by (auto simp: from_github_api_def split: option.splits)
  qed
next
  assume "\<not> marker_then_at path \<or> CHR 0x0A \<in> set path"
  then show "from_github_api path C = Inl AssertionError"
    using from_github_api_no_marker[of path C] match_repository_line_feed[of path]
    by (auto simp: from_github_api_def)
qed

section \<open>Properties of the command\<close>

subsection \<open>The two paths through \<^verbatim>\<open>main\<close>\<close>

lemma main_failure:
  assumes "raises_for_status (run_response e cr rid api)"
  shows "main e cr rid R F api =
           Inl (classify_failure e cr rid api (run_response e cr rid api))"
  using assms by (simp add: main_def)

lemma main_success:
  assumes "\<not> raises_for_status (run_response e cr rid api)"
    and "referenced_workflows (run_response e cr rid api) = Some entries"
    and "all_workflows entries = Inr all"
  shows "main e cr rid R F api =
           (case choose_workflow e R F (workflows R F all) of
              Inl err \<Rightarrow> Inl err
            | Inr workflow \<Rightarrow> Inr (report e workflow))"
  using assms by (simp add: main_def resolve_def)

text \<open>One entry that does not parse ends the list comprehension with its error.\<close>

lemma all_workflows_fatal:
  assumes "entry \<in> set entries"
    and "from_github_api (json_path entry) (json_sha entry) = Inl AssertionError"
  shows "all_workflows entries = Inl AssertionError"
  using assms
proof (induction entries)
  case Nil
  then show ?case by simp
next
  case (Cons x xs)
  show ?case
  proof (cases "from_github_api (json_path x) (json_sha x)")
    case (Inl err)
    then show ?thesis by (simp add: from_github_api_InlD)
  next
    case (Inr w)
    with Cons.prems have "entry \<in> set xs" by auto
    with Cons have "all_workflows xs = Inl AssertionError" by simp
    with Inr show ?thesis by simp
  qed
qed

lemma main_malformed:
  assumes "\<not> raises_for_status (run_response e cr rid api)"
    and "referenced_workflows (run_response e cr rid api) = Some entries"
    and "entry \<in> set entries"
    and "from_github_api (json_path entry) (json_sha entry) = Inl AssertionError"
  shows "main e cr rid R F api = Inl AssertionError"
proof -
  have "all_workflows entries = Inl AssertionError"
    using assms(3,4) by (rule all_workflows_fatal)
  with assms(1,2) show ?thesis by (simp add: main_def resolve_def)
qed

subsection \<open>The set of matching workflows\<close>

lemma set_workflows: "set (workflows R F all) = {w \<in> set all. is_target R F w}"
  by (auto simp: workflows_def is_target_def)

lemma distinct_workflows: "distinct (workflows R F all)"
  by (simp add: workflows_def)

text \<open>Among the workflows that pass the filter, the version identifies the value.\<close>

lemma workflow_eqI:
  fixes x y :: ReusableWorkflow
  assumes "is_target R F x" "is_target R F y" "version x = version y"
  shows "x = y"
  using assms by (cases x, cases y) (simp add: is_target_def version_def)

lemma distinct_singleton_set:
  assumes "distinct xs" "set xs = {w}"
  shows "xs = [w]"
proof (cases xs)
  case Nil
  with assms show ?thesis by simp
next
  case (Cons a rest)
  with assms have a: "a = w" and n: "w \<notin> set rest" and s: "set rest \<subseteq> {w}" by auto
  have "rest = []"
  proof (cases rest)
    case Nil
    then show ?thesis .
  next
    case (Cons b more)
    with s have "b = w" by simp
    with Cons n show ?thesis by simp
  qed
  with Cons a show ?thesis by simp
qed

lemma foldl_append_concat:
  "foldl (\<lambda>message w. message @ f w) acc ws = acc @ concat (map f ws)"
  by (induction ws arbitrary: acc) simp_all

lemma multiple_versions_message_eq:
  "multiple_versions_message e F R ws =
     multiple_versions_header e F R @ concat (map version_line (set_order e ws))"
  by (simp add: multiple_versions_message_def foldl_append_concat)

lemma choose_none:
  assumes "\<forall>w\<in>set all. \<not> is_target R F w"
  shows "choose_workflow e R F (workflows R F all) =
           Inl (ValueError (no_reference_message e F R))"
proof -
  from assms have "set (workflows R F all) = {}" by (simp add: set_workflows)
  then show ?thesis by (simp add: choose_workflow_def)
qed

lemma choose_one:
  assumes "w \<in> set all" "is_target R F w"
    and "\<forall>x\<in>set all. is_target R F x \<longrightarrow> version x = version w"
  shows "choose_workflow e R F (workflows R F all) = Inr w"
proof -
  have "set (workflows R F all) = {w}"
    using assms by (auto simp: set_workflows intro: workflow_eqI)
  with distinct_workflows[of R F all] have "workflows R F all = [w]"
    by (rule distinct_singleton_set)
  then show ?thesis by (simp add: choose_workflow_def pop_def)
qed

lemma choose_many:
  assumes "x \<in> set all" "y \<in> set all" "is_target R F x" "is_target R F y"
    "version x \<noteq> version y"
  shows "choose_workflow e R F (workflows R F all) =
           Inl (ValueError (multiple_versions_message e F R (workflows R F all)))"
proof -
  from assms have xy: "x \<in> set (workflows R F all)" "y \<in> set (workflows R F all)" "x \<noteq> y"
    by (auto simp: set_workflows)
  have "length (workflows R F all) > 1"
  proof (cases "workflows R F all")
    case Nil
    with xy show ?thesis by simp
  next
    case (Cons a rest)
    with xy have "rest \<noteq> []" by auto
    with Cons show ?thesis by simp
  qed
  moreover from xy have "workflows R F all \<noteq> []" by auto
  ultimately show ?thesis by (simp add: choose_workflow_def)
qed

subsection \<open>The token\<close>

lemma truthy_Some [simp]: "truthy (Some t) \<longleftrightarrow> t \<noteq> []"
  by (simp add: truthy_def)

lemma choose_workflow_token:
  "choose_workflow (e\<lparr>GH_TOKEN := token\<rparr>) R F ws = choose_workflow e R F ws"
  by (simp add: choose_workflow_def no_reference_message_def multiple_versions_message_def
      multiple_versions_header_def)

lemma resolve_token: "resolve (e\<lparr>GH_TOKEN := token\<rparr>) R F resp = resolve e R F resp"
  by (simp add: resolve_def choose_workflow_token split: option.splits sum.splits)

lemma report_token: "report (e\<lparr>GH_TOKEN := token\<rparr>) w = report e w"
  by (simp add: report_def)

subsection \<open>Evaluating the examples\<close>

lemma example_run_response [simp]:
  "run_response (example_env token run repo) ''octocat/Hello-World'' rid
     ''https://api.github.com'' = run"
  by (simp add: example_env_def run_response_def run_url_def)

lemma example_repository_response [simp]:
  "repository_response (example_env token run repo) ''octocat/Hello-World''
     ''https://api.github.com'' = repo"
  by (simp add: example_env_def repository_response_def repository_url_def)

lemma example_env_sel [simp]:
  "GH_TOKEN (example_env token run repo) = token"
  "GITHUB_OUTPUT (example_env token run repo) = None"
  "repr_str (example_env token run repo) = quoted"
  "set_order (example_env token run repo) ws = ws"
  by (simp_all add: example_env_def)

lemma status_simps [simp]:
  "status_code (status_only code) = code"
  "status_code (ok_response entries) = 200"
  "referenced_workflows (ok_response entries) = Some entries"
  "\<not> raises_for_status (ok_response entries)"
  by (simp_all add: status_only_def ok_response_def raises_for_status_def)

lemma parse_examples [simp]:
  "from_github_api (json_path build_v2) (json_sha build_v2) =
     Inr \<lparr>sha = ''abc123'', repository = ''acme/infra'', file_name = ''build.yaml'',
          ref = ''v2.0.0''\<rparr>"
  "from_github_api (json_path build_v3) (json_sha build_v3) =
     Inr \<lparr>sha = ''def456'', repository = ''acme/infra'', file_name = ''build.yaml'',
          ref = ''v3.0.0''\<rparr>"
  "from_github_api (json_path other_workflow) (json_sha other_workflow) =
     Inr \<lparr>sha = ''0a1b2c'', repository = ''acme/infra'', file_name = ''lint.yaml'',
          ref = ''v1''\<rparr>"
  "from_github_api (json_path malformed_workflow) (json_sha malformed_workflow) =
     Inl AssertionError"
  by (simp_all add: build_v2_def build_v3_def other_workflow_def malformed_workflow_def
      from_github_api_def after_marker_def marker_def dot_def)

section \<open>The specification's statements about the parser\<close>

text \<open>
  C1, as stated: every path \<open>R/.github/workflows/F@Ref\<close> in which \<open>R\<close> does not contain the
  marker and \<open>F\<close> contains neither \<^verbatim>\<open>/\<close> nor \<^verbatim>\<open>@\<close> parses to repository \<open>R\<close>, file name
  \<open>F\<close>, ref \<open>Ref\<close> and the given commit. Two inputs of that shape behave otherwise. When
  \<open>R\<close> ends in \<^verbatim>\<open>/.github/workflows\<close> the marker already begins inside \<open>R\<close>, and the lazy
  repository group stops there. When a segment holds a line feed the pattern does not match
  at all, since \<^verbatim>\<open>.\<close> excludes it.
\<close>

theorem valid_shape_is_not_enough:
  "\<not> sublist marker ''x/.github/workflows'' \<and>
   CHR ''/'' \<notin> set ''F'' \<and> CHR ''@'' \<notin> set ''F'' \<and>
   from_github_api (''x/.github/workflows'' @ marker @ ''F'' @ ''@'' @ ''Ref'') ''c'' =
     Inr \<lparr>sha = ''c'', repository = ''x'', file_name = ''.github/workflows/F'',
          ref = ''Ref''\<rparr> \<and>
   \<not> sublist marker ''a/b'' \<and>
   from_github_api (''a/b'' @ marker @ ''F'' @ ''@'' @ [CHR ''v'', CHR 0x0A]) ''c'' =
     Inl AssertionError"
  by (simp add: marker_def sublist_Cons_right from_github_api_def after_marker_def dot_def)

text \<open>
  C1, amended: for every path \<open>R/.github/workflows/F@Ref\<close> in which the marker does not
  occur in \<open>R\<close> followed by \<^verbatim>\<open>/.github/workflows\<close> (so \<open>R\<close> neither contains the marker nor
  ends in the marker without its last slash), \<open>F\<close> contains neither \<^verbatim>\<open>/\<close> nor \<^verbatim>\<open>@\<close>, and no
  line feed occurs in \<open>R\<close>, \<open>F\<close> or \<open>Ref\<close>, and for every commit identifier \<open>C\<close>, parsing
  succeeds with repository \<open>R\<close>, file name \<open>F\<close>, ref \<open>Ref\<close> and commit \<open>C\<close>. (The
  condition on \<^verbatim>\<open>/\<close> is kept from the specification; the pattern does not need it.)
\<close>

theorem from_github_api_valid_path:
  assumes "\<not> sublist marker (R @ ''/.github/workflows'')"
    and "CHR ''/'' \<notin> set F" and "CHR ''@'' \<notin> set F"
    and "CHR 0x0A \<notin> set (R @ F @ Ref)"
  shows "from_github_api (R @ marker @ F @ ''@'' @ Ref) C =
           Inr \<lparr>sha = C, repository = R, file_name = F, ref = Ref\<rparr>"
proof -
  from assms(4) have "list_all dot R" "list_all dot F" "list_all dot Ref"
    by (auto simp: list_all_iff dot_def)
  with assms(1,3)
  have "match_repository (R @ marker @ F @ CHR ''@'' # Ref) = Some (R, F, Ref)"
    by (intro match_repository_append) (simp_all add: butlast_marker)
  then show ?thesis by (simp add: from_github_api_def)
qed

text \<open>The specification's end-to-end example is an instance.\<close>

theorem from_github_api_valid_path_witness:
  "\<not> sublist marker (''acme/infra'' @ ''/.github/workflows'') \<and>
   CHR ''/'' \<notin> set ''build.yaml'' \<and> CHR ''@'' \<notin> set ''build.yaml'' \<and>
   CHR 0x0A \<notin> set (''acme/infra'' @ ''build.yaml'' @ ''v2.0.0'') \<and>
   from_github_api (''acme/infra'' @ marker @ ''build.yaml'' @ ''@'' @ ''v2.0.0'') ''abc123'' =
     Inr \<lparr>sha = ''abc123'', repository = ''acme/infra'', file_name = ''build.yaml'',
          ref = ''v2.0.0''\<rparr>"
  using from_github_api_valid_path
    [of "''acme/infra''" "''build.yaml''" "''v2.0.0''" "''abc123''"]
  by (simp add: marker_def sublist_Cons_right)

text \<open>
  C6, as stated: with more than one \<^verbatim>\<open>@\<close> after the marker the last one separates file name
  and ref. On \<^verbatim>\<open>a/b/.github/workflows/f@x@y\<close> the code answers file name \<^verbatim>\<open>f\<close> and ref
  \<^verbatim>\<open>x@y\<close>, not file name \<^verbatim>\<open>f@x\<close> and ref \<^verbatim>\<open>y\<close>: the file-name group is lazy.
\<close>

theorem split_is_not_at_last_at_sign:
  "from_github_api ''a/b/.github/workflows/f@x@y'' ''c'' =
     Inr \<lparr>sha = ''c'', repository = ''a/b'', file_name = ''f'', ref = ''x@y''\<rparr> \<and>
   from_github_api ''a/b/.github/workflows/f@x@y'' ''c'' \<noteq>
     Inr \<lparr>sha = ''c'', repository = ''a/b'', file_name = ''f@x'', ref = ''y''\<rparr>"
  by (simp add: from_github_api_def after_marker_def marker_def dot_def)

text \<open>
  C6, amended: for every path on which parsing succeeds, in particular one with more than one
  \<^verbatim>\<open>@\<close> after the marker, the split between file name and ref is governed by the first
  \<^verbatim>\<open>@\<close> after the first marker: the path is repository, marker, file name, \<^verbatim>\<open>@\<close>, ref in
  this order, the file name contains no \<^verbatim>\<open>@\<close> (so the ref is everything after the first
  \<^verbatim>\<open>@\<close>, later ones included), and the marker does not begin inside the repository.
\<close>

theorem split_at_first_at_sign:
  assumes "from_github_api path C = Inr w"
  shows "path = repository w @ marker @ file_name w @ ''@'' @ ref w \<and>
         CHR ''@'' \<notin> set (file_name w) \<and>
         \<not> sublist marker (repository w @ ''/.github/workflows'')"
proof -
  from from_github_api_InrD[OF assms]
  have m: "match_repository path = Some (repository w, file_name w, ref w)" by simp
  from match_repository_SomeD[OF m] match_repository_first[OF m] show ?thesis
    by (simp add: butlast_marker)
qed

theorem split_at_first_at_sign_witness:
  "from_github_api ''a/b/.github/workflows/f@x@y@z'' ''c'' =
     Inr \<lparr>sha = ''c'', repository = ''a/b'', file_name = ''f'', ref = ''x@y@z''\<rparr> \<and>
   ''a/b/.github/workflows/f@x@y@z'' = ''a/b'' @ marker @ ''f'' @ ''@'' @ ''x@y@z'' \<and>
   CHR ''@'' \<notin> set ''f'' \<and> \<not> sublist marker (''a/b'' @ ''/.github/workflows'')"
proof -
  have p: "from_github_api ''a/b/.github/workflows/f@x@y@z'' ''c'' =
     Inr \<lparr>sha = ''c'', repository = ''a/b'', file_name = ''f'', ref = ''x@y@z''\<rparr>"
    by (simp add: from_github_api_def after_marker_def marker_def dot_def)
  from split_at_first_at_sign [OF p] p show ?thesis by simp
qed

text \<open>
  C7, as stated: after successful parsing all four fields are non-empty. The three groups are
  \<^verbatim>\<open>.*?\<close>, which match the empty string, and \<^verbatim>\<open>sha\<close> is not inspected: the path
  \<^verbatim>\<open>/.github/workflows/@\<close> with an empty commit parses, and every field is empty.
\<close>

theorem parsed_fields_may_be_empty:
  "from_github_api ''/.github/workflows/@'' [] =
     Inr \<lparr>sha = [], repository = [], file_name = [], ref = []\<rparr>"
  by (simp add: from_github_api_def after_marker_def marker_def dot_def)

text \<open>
  C7, amended: for every input on which parsing succeeds, the commit field is the given
  identifier and the other three fields are the segments of the path around the marker and
  the \<^verbatim>\<open>@\<close> (path = repository + marker + file name + \<^verbatim>\<open>@\<close> + ref), none of them holding a
  line feed. A field is therefore non-empty exactly when the part of the input it is taken
  from is non-empty; the parser itself accepts empty parts.
\<close>

theorem parsed_fields_are_input_segments:
  assumes "from_github_api path C = Inr w"
  shows "sha w = C \<and> path = repository w @ marker @ file_name w @ ''@'' @ ref w \<and>
         CHR 0x0A \<notin> set (repository w @ file_name w @ ref w)"
proof -
  from from_github_api_InrD[OF assms]
  have s: "sha w = C"
    and m: "match_repository path = Some (repository w, file_name w, ref w)"
    by simp_all
  from match_repository_SomeD[OF m] s show ?thesis
    by (auto simp: list_all_iff dot_def)
qed

theorem parsed_fields_are_input_segments_witness:
  "from_github_api ''acme/infra/.github/workflows/lint.yaml@main'' ''0a1b2c'' =
     Inr \<lparr>sha = ''0a1b2c'', repository = ''acme/infra'', file_name = ''lint.yaml'',
          ref = ''main''\<rparr> \<and>
   ''acme/infra/.github/workflows/lint.yaml@main'' =
     ''acme/infra'' @ marker @ ''lint.yaml'' @ ''@'' @ ''main'' \<and>
   CHR 0x0A \<notin> set (''acme/infra'' @ ''lint.yaml'' @ ''main'')"
proof -
  have p: "from_github_api ''acme/infra/.github/workflows/lint.yaml@main'' ''0a1b2c'' =
     Inr \<lparr>sha = ''0a1b2c'', repository = ''acme/infra'', file_name = ''lint.yaml'',
          ref = ''main''\<rparr>"
    by (simp add: from_github_api_def after_marker_def marker_def dot_def)
  from parsed_fields_are_input_segments [OF p] p show ?thesis by simp
qed

text \<open>
  C8, as stated: every path that does not match the shape
  \<^verbatim>\<open><repository>/.github/workflows/<fileName>@<ref>\<close> makes parsing fail. The specification's
  shape has a file name without \<^verbatim>\<open>/\<close> and non-empty parts, but the pattern asks for
  neither: a path whose file-name part is \<^verbatim>\<open>sub/dir/f.yaml\<close> and a path whose file-name part
  is empty are both parsed, and a reference is returned.
\<close>

theorem paths_outside_the_shape_are_parsed:
  "from_github_api ''a/b/.github/workflows/sub/dir/f.yaml@v1'' ''c'' =
     Inr \<lparr>sha = ''c'', repository = ''a/b'', file_name = ''sub/dir/f.yaml'', ref = ''v1''\<rparr> \<and>
   CHR ''/'' \<in> set ''sub/dir/f.yaml'' \<and>
   from_github_api ''a/b/.github/workflows/@v1'' ''c'' =
     Inr \<lparr>sha = ''c'', repository = ''a/b'', file_name = [], ref = ''v1''\<rparr>"
  by (simp add: from_github_api_def after_marker_def marker_def dot_def)

text \<open>
  C8, amended: for every path string that does not contain the marker
  \<^verbatim>\<open>/.github/workflows/\<close> followed later by an \<^verbatim>\<open>@\<close>, or that contains a line feed,
  \<^verbatim>\<open>from_github_api\<close> raises \<^verbatim>\<open>AssertionError\<close> and returns no reference, and a run whose
  response lists an entry with such a path ends with that same \<^verbatim>\<open>AssertionError\<close>, which
  \<^verbatim>\<open>main\<close> neither catches nor turns into one of its messages. Every other path string is
  parsed into a reference, also when its file-name part contains \<^verbatim>\<open>/\<close> or one of its parts
  is empty.
\<close>

theorem malformed_path_is_fatal:
  "(\<not> marker_then_at path \<or> CHR 0x0A \<in> set path \<longrightarrow>
      from_github_api path C = Inl AssertionError \<and>
      (\<forall>e cr rid R F api entries entry.
         \<not> raises_for_status (run_response e cr rid api) \<and>
         referenced_workflows (run_response e cr rid api) = Some entries \<and>
         entry \<in> set entries \<and> json_path entry = path \<longrightarrow>
         main e cr rid R F api = Inl AssertionError)) \<and>
   (marker_then_at path \<and> CHR 0x0A \<notin> set path \<longrightarrow>
      (\<exists>w. from_github_api path C = Inr w))"
proof (intro conjI impI allI)
  assume "\<not> marker_then_at path \<or> CHR 0x0A \<in> set path"
  then show "from_github_api path C = Inl AssertionError"
    by (simp add: from_github_api_fails_iff)
next
  fix e cr rid R F api entries entry
  assume bad: "\<not> marker_then_at path \<or> CHR 0x0A \<in> set path"
    and run: "\<not> raises_for_status (run_response e cr rid api) \<and>
         referenced_workflows (run_response e cr rid api) = Some entries \<and>
         entry \<in> set entries \<and> json_path entry = path"
  from bad run
  have "from_github_api (json_path entry) (json_sha entry) = Inl AssertionError"
    by (simp add: from_github_api_fails_iff)
  with run show "main e cr rid R F api = Inl AssertionError"
    by (blast intro: main_malformed)
next
  assume ok: "marker_then_at path \<and> CHR 0x0A \<notin> set path"
  then have "from_github_api path C \<noteq> Inl AssertionError"
    by (simp add: from_github_api_fails_iff)
  then show "\<exists>w. from_github_api path C = Inr w"
    by (cases "from_github_api path C") (auto dest: from_github_api_InlD)
qed

text \<open>
  A path without the marker and a path of the right form with a line feed in its ref both
  fail, alone and inside a run; a path with slashes in its file-name part is parsed.
\<close>

theorem malformed_path_is_fatal_witness:
  "\<not> marker_then_at ''acme/infra/build.yaml'' \<and>
   from_github_api ''acme/infra/build.yaml'' ''abc123'' = Inl AssertionError \<and>
   example_main (example_env None (ok_response [build_v2, malformed_workflow])
     (status_only 200)) = Inl AssertionError \<and>
   CHR 0x0A \<in> set (''a/b/.github/workflows/f.yaml@v1'' @ [CHR 0x0A]) \<and>
   from_github_api (''a/b/.github/workflows/f.yaml@v1'' @ [CHR 0x0A]) ''abc123'' =
     Inl AssertionError \<and>
   marker_then_at ''a/b/.github/workflows/sub/dir/f.yaml@v1'' \<and>
   CHR 0x0A \<notin> set ''a/b/.github/workflows/sub/dir/f.yaml@v1'' \<and>
   (\<exists>w. from_github_api ''a/b/.github/workflows/sub/dir/f.yaml@v1'' ''abc123'' = Inr w)"
proof -
  have h: "\<not> marker_then_at ''acme/infra/build.yaml''" by (simp add: marker_def)
  note t = malformed_path_is_fatal [of "''acme/infra/build.yaml''" "''abc123''"]
  from t h
  have 1: "from_github_api ''acme/infra/build.yaml'' ''abc123'' = Inl AssertionError"
    by blast
  note u = t [THEN conjunct1, rule_format, OF disjI1 [OF h], THEN conjunct2, rule_format,
      where e = "example_env None (ok_response [build_v2, malformed_workflow]) (status_only 200)"
        and cr = "''octocat/Hello-World''" and api = "''https://api.github.com''"
        and entries = "[build_v2, malformed_workflow]" and entry = malformed_workflow]
  have 2: "example_main (example_env None (ok_response [build_v2, malformed_workflow])
       (status_only 200)) = Inl AssertionError"
    unfolding example_main_def by (rule u) (simp add: malformed_workflow_def)
  have l: "CHR 0x0A \<in> set (''a/b/.github/workflows/f.yaml@v1'' @ [CHR 0x0A])" by simp
  from malformed_path_is_fatal
    [of "''a/b/.github/workflows/f.yaml@v1'' @ [CHR 0x0A]" "''abc123''"] l
  have 3: "from_github_api (''a/b/.github/workflows/f.yaml@v1'' @ [CHR 0x0A]) ''abc123'' =
     Inl AssertionError"
    by blast
  have m: "marker_then_at ''a/b/.github/workflows/sub/dir/f.yaml@v1''"
    by (simp add: marker_def)
  have n: "CHR 0x0A \<notin> set ''a/b/.github/workflows/sub/dir/f.yaml@v1''" by simp
  from malformed_path_is_fatal
    [of "''a/b/.github/workflows/sub/dir/f.yaml@v1''" "''abc123''"] m n
  have 4: "\<exists>w. from_github_api ''a/b/.github/workflows/sub/dir/f.yaml@v1'' ''abc123'' = Inr w"
    by blast
  from h 1 2 l 3 m n 4 show ?thesis by blast
qed

section \<open>The specification's statements about resolution\<close>

text \<open>
  In this section a \<^emph>\<open>successful response\<close> is a response to the run-metadata request whose
  status \<^verbatim>\<open>raise_for_status\<close> accepts and whose body yields a \<^verbatim>\<open>referenced_workflows\<close>
  list. The entries of that list are raw: a workflow has a repository and a file name only
  once \<^verbatim>\<open>from_github_api\<close> has parsed its path, and \<^verbatim>\<open>main\<close> parses every entry before it
  filters any.
\<close>

lemma version_inj_on_workflows: "inj_on version (set (workflows R F all))"
proof (rule inj_onI)
  fix x y
  assume "x \<in> set (workflows R F all)" "y \<in> set (workflows R F all)"
    and v: "version x = version y"
  then have "is_target R F x" "is_target R F y" by (simp_all add: set_workflows)
  then show "x = y" using v by (rule workflow_eqI)
qed

text \<open>
  C2, as stated: whenever exactly one entry of the list matches the target repository and
  file name, resolution succeeds. In the response below \<^verbatim>\<open>build.yaml@v2.0.0\<close> is the only
  entry that matches, but another entry has a path without the marker, and the run ends with
  the \<^verbatim>\<open>AssertionError\<close> of \<^verbatim>\<open>from_github_api\<close>.
\<close>

theorem single_match_beside_malformed_entry:
  "from_github_api (json_path build_v2) (json_sha build_v2) =
     Inr \<lparr>sha = ''abc123'', repository = ''acme/infra'', file_name = ''build.yaml'',
          ref = ''v2.0.0''\<rparr> \<and>
   from_github_api (json_path malformed_workflow) (json_sha malformed_workflow) =
     Inl AssertionError \<and>
   example_main (example_env None (ok_response [build_v2, malformed_workflow])
     (status_only 200)) = Inl AssertionError"
  by (simp add: example_main_def main_def resolve_def)

text \<open>
  C2, amended: for every successful response all of whose entries parse, if the parsed
  entries contain a workflow \<open>w\<close> for the target repository and file name and every other
  parsed entry for that target has the same ref and commit as \<open>w\<close>, then resolution
  succeeds with \<open>w\<close>: \<^verbatim>\<open>main\<close> prints the commit and the ref of \<open>w\<close> and reports its
  commit.
\<close>

theorem single_match_is_resolved:
  assumes "\<not> raises_for_status (run_response e cr rid api)"
    and "referenced_workflows (run_response e cr rid api) = Some entries"
    and "all_workflows entries = Inr all"
    and "w \<in> set all" and "is_target R F w"
    and "\<forall>x\<in>set all. is_target R F x \<longrightarrow> version x = version w"
  shows "resolve e R F (run_response e cr rid api) = Inr w \<and>
         main e cr rid R F api = Inr (report e w) \<and>
         printed (report e w) =
           ''Reusable workflow version: '' @ sha w @ '' (ref: '' @ ref w @ '')'' @ [CHR 0x0A]"
proof -
  have c: "choose_workflow e R F (workflows R F all) = Inr w"
    using assms(4-6) by (rule choose_one)
  have "resolve e R F (run_response e cr rid api) = Inr w"
    using assms(2,3) c by (simp add: resolve_def)
  moreover have "main e cr rid R F api = Inr (report e w)"
    using main_success[OF assms(1-3)] c by simp
  ultimately show ?thesis by (simp add: report_def)
qed

text \<open>The specification's end-to-end example, with an unrelated entry and a duplicate.\<close>

theorem single_match_is_resolved_witness:
  "example_main (example_env None (ok_response [other_workflow, build_v2, build_v2])
     (status_only 200)) =
     Inr \<lparr>printed = ''Reusable workflow version: abc123 (ref: v2.0.0)'' @ [CHR 0x0A],
          appended = None\<rparr>"
proof -
  let ?w = "\<lparr>sha = ''abc123'', repository = ''acme/infra'', file_name = ''build.yaml'',
              ref = ''v2.0.0''\<rparr>"
  let ?o = "\<lparr>sha = ''0a1b2c'', repository = ''acme/infra'', file_name = ''lint.yaml'',
              ref = ''v1''\<rparr>"
  have a: "all_workflows [other_workflow, build_v2, build_v2] = Inr [?o, ?w, ?w]" by simp
  show ?thesis
    using single_match_is_resolved
      [of "example_env None (ok_response [other_workflow, build_v2, build_v2])
             (status_only 200)"
        "''octocat/Hello-World''" 8938022468 "''https://api.github.com''"
        "[other_workflow, build_v2, build_v2]" _ ?w "''acme/infra''" "''build.yaml''",
        OF _ _ a]
    by (simp add: example_main_def is_target_def report_def)
qed

text \<open>
  C4, as stated: whenever more than one distinct version matches, resolution fails with the
  error that lists them. In the response below two versions of \<^verbatim>\<open>build.yaml\<close> match, but a
  third entry has a path without the marker, and the run ends with \<^verbatim>\<open>AssertionError\<close>
  instead.
\<close>

theorem several_versions_beside_malformed_entry:
  "from_github_api (json_path build_v2) (json_sha build_v2) =
     Inr \<lparr>sha = ''abc123'', repository = ''acme/infra'', file_name = ''build.yaml'',
          ref = ''v2.0.0''\<rparr> \<and>
   from_github_api (json_path build_v3) (json_sha build_v3) =
     Inr \<lparr>sha = ''def456'', repository = ''acme/infra'', file_name = ''build.yaml'',
          ref = ''v3.0.0''\<rparr> \<and>
   example_main (example_env None (ok_response [build_v2, build_v3, malformed_workflow])
     (status_only 200)) = Inl AssertionError"
  by (simp add: example_main_def main_def resolve_def)

text \<open>
  C4, amended: for every successful response all of whose entries parse, and a runtime whose
  set iteration visits every element of the set exactly once: if two parsed entries for the
  target differ in ref or commit, \<^verbatim>\<open>main\<close> raises \<^verbatim>\<open>ValueError\<close> whose message is the
  header followed by one line per visited workflow, and the visited workflows carry every
  distinct (ref, commit) pair of the target exactly once; and if two parsed entries for the
  target have the same ref and commit and no entry for the target has another, the run
  succeeds with that workflow.
\<close>

theorem several_versions_are_ambiguous:
  assumes "\<not> raises_for_status (run_response e cr rid api)"
    and "referenced_workflows (run_response e cr rid api) = Some entries"
    and "all_workflows entries = Inr all"
    and "distinct (set_order e (workflows R F all))"
    and "set (set_order e (workflows R F all)) = set (workflows R F all)"
  shows "((\<exists>x\<in>set all. \<exists>y\<in>set all.
             is_target R F x \<and> is_target R F y \<and> version x \<noteq> version y) \<longrightarrow>
          main e cr rid R F api =
            Inl (ValueError
                  (multiple_versions_header e F R @
                   concat (map version_line (set_order e (workflows R F all))))) \<and>
          distinct (map version (set_order e (workflows R F all))) \<and>
          set (map version (set_order e (workflows R F all))) =
            version ` {x \<in> set all. is_target R F x}) \<and>
         (\<forall>i j. i < j \<and> j < length all \<and> is_target R F (all ! i) \<and>
             is_target R F (all ! j) \<and> version (all ! j) = version (all ! i) \<and>
             (\<forall>x\<in>set all. is_target R F x \<longrightarrow> version x = version (all ! i)) \<longrightarrow>
             main e cr rid R F api = Inr (report e (all ! i)))"
proof (intro conjI impI allI)
  assume "\<exists>x\<in>set all. \<exists>y\<in>set all.
             is_target R F x \<and> is_target R F y \<and> version x \<noteq> version y"
  then obtain x y where "x \<in> set all" "y \<in> set all" "is_target R F x" "is_target R F y"
    "version x \<noteq> version y" by blast
  then have "choose_workflow e R F (workflows R F all) =
           Inl (ValueError (multiple_versions_message e F R (workflows R F all)))"
    by (rule choose_many)
  with main_success[OF assms(1-3)]
  show "main e cr rid R F api =
            Inl (ValueError
                  (multiple_versions_header e F R @
                   concat (map version_line (set_order e (workflows R F all)))))"
    by (simp add: multiple_versions_message_eq)
next
  show "distinct (map version (set_order e (workflows R F all)))"
    using assms(4,5) version_inj_on_workflows[of R F all] by (simp add: distinct_map)
next
  show "set (map version (set_order e (workflows R F all))) =
            version ` {x \<in> set all. is_target R F x}"
    using assms(5) by (simp add: set_workflows)
next
  fix i j
  assume a: "i < j \<and> j < length all \<and> is_target R F (all ! i) \<and>
             is_target R F (all ! j) \<and> version (all ! j) = version (all ! i) \<and>
             (\<forall>x\<in>set all. is_target R F x \<longrightarrow> version x = version (all ! i))"
  from a have ij: "i < j" "j < length all" by blast+
  from a have ti: "is_target R F (all ! i)" by blast
  from a have u: "\<forall>x\<in>set all. is_target R F x \<longrightarrow> version x = version (all ! i)"
    by blast
  from ij have "all ! i \<in> set all" by simp
  then have "choose_workflow e R F (workflows R F all) = Inr (all ! i)"
    using ti u by (rule choose_one)
  with main_success[OF assms(1-3)]
  show "main e cr rid R F api = Inr (report e (all ! i))" by simp
qed

text \<open>
  Two versions and a duplicate give the message with two lines; a duplicate beside an
  unrelated workflow is resolved.
\<close>

theorem several_versions_are_ambiguous_witness:
  "example_main (example_env None (ok_response [build_v2, build_v3, build_v2])
     (status_only 200)) =
     Inl (ValueError
       (''Cannot resolve multiple versions found for reusable_workflow_file_name='' @
        quoted ''build.yaml'' @ '' reusable_workflow_repository='' @ quoted ''acme/infra'' @
        '':'' @ [CHR 0x0A, CHR 0xE2, CHR 0x80, CHR 0xA2] @ '' v3.0.0 (def456)'' @
        [CHR 0x0A, CHR 0xE2, CHR 0x80, CHR 0xA2] @ '' v2.0.0 (abc123)'')) \<and>
   example_main (example_env None (ok_response [build_v2, other_workflow, build_v2])
     (status_only 200)) =
     Inr \<lparr>printed = ''Reusable workflow version: abc123 (ref: v2.0.0)'' @ [CHR 0x0A],
          appended = None\<rparr>"
proof -
  let ?v2 = "\<lparr>sha = ''abc123'', repository = ''acme/infra'', file_name = ''build.yaml'',
               ref = ''v2.0.0''\<rparr>"
  let ?v3 = "\<lparr>sha = ''def456'', repository = ''acme/infra'', file_name = ''build.yaml'',
               ref = ''v3.0.0''\<rparr>"
  let ?o = "\<lparr>sha = ''0a1b2c'', repository = ''acme/infra'', file_name = ''lint.yaml'',
              ref = ''v1''\<rparr>"
  let ?e1 = "example_env None (ok_response [build_v2, build_v3, build_v2]) (status_only 200)"
  let ?e2 = "example_env None (ok_response [build_v2, other_workflow, build_v2])
               (status_only 200)"
  have a1: "all_workflows [build_v2, build_v3, build_v2] = Inr [?v2, ?v3, ?v2]" by simp
  have a2: "all_workflows [build_v2, other_workflow, build_v2] = Inr [?v2, ?o, ?v2]" by simp
  have w1: "workflows ''acme/infra'' ''build.yaml'' [?v2, ?v3, ?v2] = [?v3, ?v2]"
    by (simp add: workflows_def)
  have w2: "workflows ''acme/infra'' ''build.yaml'' [?v2, ?o, ?v2] = [?v2]"
    by (simp add: workflows_def)
  note t1 = several_versions_are_ambiguous
      [of ?e1 "''octocat/Hello-World''" 8938022468 "''https://api.github.com''"
        "[build_v2, build_v3, build_v2]" _ "''acme/infra''" "''build.yaml''", OF _ _ a1]
  note t2 = several_versions_are_ambiguous
      [of ?e2 "''octocat/Hello-World''" 8938022468 "''https://api.github.com''"
        "[build_v2, other_workflow, build_v2]" _ "''acme/infra''" "''build.yaml''", OF _ _ a2]
  have 1: "example_main ?e1 =
     Inl (ValueError
       (''Cannot resolve multiple versions found for reusable_workflow_file_name='' @
        quoted ''build.yaml'' @ '' reusable_workflow_repository='' @ quoted ''acme/infra'' @
        '':'' @ [CHR 0x0A, CHR 0xE2, CHR 0x80, CHR 0xA2] @ '' v3.0.0 (def456)'' @
        [CHR 0x0A, CHR 0xE2, CHR 0x80, CHR 0xA2] @ '' v2.0.0 (abc123)''))"
    using t1 [THEN conjunct1]
    by (simp add: w1 example_main_def is_target_def version_def version_line_def
        multiple_versions_header_def)
  have 2: "example_main ?e2 =
     Inr \<lparr>printed = ''Reusable workflow version: abc123 (ref: v2.0.0)'' @ [CHR 0x0A],
          appended = None\<rparr>"
    using t2 [THEN conjunct2, rule_format, of 0 2]
    by (simp add: w2 example_main_def is_target_def version_def report_def)
  from 1 2 show ?thesis by simp
qed

text \<open>
  C5, as stated: whenever no entry of the list matches the target repository and file name,
  resolution fails with the error that names them. In the response below no entry matches
  \<^verbatim>\<open>build.yaml\<close>, but one entry has a path without the marker, and the run ends with
  \<^verbatim>\<open>AssertionError\<close> instead.
\<close>

theorem no_match_beside_malformed_entry:
  "from_github_api (json_path other_workflow) (json_sha other_workflow) =
     Inr \<lparr>sha = ''0a1b2c'', repository = ''acme/infra'', file_name = ''lint.yaml'',
          ref = ''v1''\<rparr> \<and>
   ''lint.yaml'' \<noteq> ''build.yaml'' \<and>
   from_github_api (json_path malformed_workflow) (json_sha malformed_workflow) =
     Inl AssertionError \<and>
   example_main (example_env None (ok_response [other_workflow, malformed_workflow])
     (status_only 200)) = Inl AssertionError"
  by (simp add: example_main_def main_def resolve_def)

text \<open>
  C5, amended: for every successful response all of whose entries parse, if no parsed entry
  has the target repository and the target file name, \<^verbatim>\<open>main\<close> raises \<^verbatim>\<open>ValueError\<close> with
  the no-reference message, which contains the \<^verbatim>\<open>repr\<close> of the requested file name and of
  the requested repository.
\<close>

theorem no_match_is_reported:
  assumes "\<not> raises_for_status (run_response e cr rid api)"
    and "referenced_workflows (run_response e cr rid api) = Some entries"
    and "all_workflows entries = Inr all"
    and "\<forall>w\<in>set all. \<not> is_target R F w"
  shows "main e cr rid R F api = Inl (ValueError (no_reference_message e F R)) \<and>
         sublist (repr_str e F) (no_reference_message e F R) \<and>
         sublist (repr_str e R) (no_reference_message e F R)"
proof -
  have "main e cr rid R F api = Inl (ValueError (no_reference_message e F R))"
    using main_success[OF assms(1-3)] choose_none[OF assms(4)] by simp
  moreover have "sublist (repr_str e F) (no_reference_message e F R)"
    unfolding no_reference_message_def by (rule sublist_appendI)
  moreover have "sublist (repr_str e R) (no_reference_message e F R)"
    unfolding no_reference_message_def sublist_def
    by (rule exI[where x = "''No reference found for reusable_workflow_file_name='' @
     repr_str e F @ '' reusable_workflow_repository=''"], rule exI[where x = "[]"]) simp
  ultimately show ?thesis by simp
qed

theorem no_match_is_reported_witness:
  "all_workflows [other_workflow] =
     Inr [\<lparr>sha = ''0a1b2c'', repository = ''acme/infra'', file_name = ''lint.yaml'',
           ref = ''v1''\<rparr>] \<and>
   example_main (example_env None (ok_response [other_workflow]) (status_only 200)) =
     Inl (ValueError (''No reference found for reusable_workflow_file_name='' @
        quoted ''build.yaml'' @ '' reusable_workflow_repository='' @ quoted ''acme/infra''))"
proof -
  have a: "all_workflows [other_workflow] =
     Inr [\<lparr>sha = ''0a1b2c'', repository = ''acme/infra'', file_name = ''lint.yaml'',
           ref = ''v1''\<rparr>]"
    by simp
  show ?thesis
    using no_match_is_reported
      [of "example_env None (ok_response [other_workflow]) (status_only 200)"
        "''octocat/Hello-World''" 8938022468 "''https://api.github.com''" "[other_workflow]"
        _ "''acme/infra''" "''build.yaml''", OF _ _ a]
    by (simp add: example_main_def is_target_def no_reference_message_def)
qed

section \<open>The specification's statements about failed requests and the token\<close>

text \<open>
  C3: a 403 on the run-metadata request raises the permission error; a 404 followed by a 404
  on the repository-existence request raises the repository-not-found error, in the variant
  chosen by whether \<^verbatim>\<open>GH_TOKEN\<close> is set and non-empty; a 404 followed by any other status
  raises the run-not-found error.
\<close>

theorem http_failure_classification:
  "(status_code (run_response e cr rid api) = 403 \<longrightarrow>
      main e cr rid R F api = Inl (Exception permission_message)) \<and>
   (status_code (run_response e cr rid api) = 404 \<and>
    status_code (repository_response e cr api) = 404 \<longrightarrow>
      main e cr rid R F api =
        Inl (Exception
              (if truthy (GH_TOKEN e) then repository_not_found_token_message e cr
               else repository_not_found_private_message e cr))) \<and>
   (status_code (run_response e cr rid api) = 404 \<and>
    status_code (repository_response e cr api) \<noteq> 404 \<longrightarrow>
      main e cr rid R F api = Inl (Exception (run_not_found_message rid)))"
  by (simp add: main_def raises_for_status_def classify_failure_def)

theorem http_failure_classification_witness:
  "example_main (example_env None (status_only 403) (status_only 200)) =
     Inl (Exception permission_message) \<and>
   example_main (example_env (Some ''ghp_secret'') (status_only 404) (status_only 404)) =
     Inl (Exception (''caller_repository='' @ quoted ''octocat/Hello-World'' @
        '' not found. Check if `github-token` input has correct permissions'')) \<and>
   example_main (example_env None (status_only 404) (status_only 404)) =
     Inl (Exception (''caller_repository='' @ quoted ''octocat/Hello-World'' @
        '' not found. If repository is private, pass `github-token` input to authenticate to GitHub'')) \<and>
   example_main (example_env None (status_only 404) (status_only 200)) =
     Inl (Exception (run_not_found_message 8938022468))"
  using http_failure_classification
      [of "example_env None (status_only 403) (status_only 200)"
        "''octocat/Hello-World''" 8938022468 "''https://api.github.com''"
        "''acme/infra''" "''build.yaml''"]
    http_failure_classification
      [of "example_env (Some ''ghp_secret'') (status_only 404) (status_only 404)"
        "''octocat/Hello-World''" 8938022468 "''https://api.github.com''"
        "''acme/infra''" "''build.yaml''"]
    http_failure_classification
      [of "example_env None (status_only 404) (status_only 404)"
        "''octocat/Hello-World''" 8938022468 "''https://api.github.com''"
        "''acme/infra''" "''build.yaml''"]
    http_failure_classification
      [of "example_env None (status_only 404) (status_only 200)"
        "''octocat/Hello-World''" 8938022468 "''https://api.github.com''"
        "''acme/infra''" "''build.yaml''"]
  by (simp add: example_main_def truthy_def repository_not_found_token_message_def
      repository_not_found_private_message_def)

text \<open>
  C10: after a 404 on the run-metadata request, every status of the repository-existence
  request other than 404 leads to the run-not-found error; the code does not look at whether
  that second request succeeded. The instances are a 403 and a 500, both statuses that
  \<^verbatim>\<open>raise_for_status\<close> would reject.
\<close>

theorem repository_check_only_tests_404:
  assumes "status_code (run_response e cr rid api) = 404"
    and "status_code (repository_response e cr api) \<noteq> 404"
  shows "main e cr rid R F api = Inl (Exception (run_not_found_message rid))"
  using assms by (simp add: main_def raises_for_status_def classify_failure_def)

theorem repository_check_only_tests_404_witness:
  "raises_for_status (status_only 403) \<and> raises_for_status (status_only 500) \<and>
   example_main (example_env None (status_only 404) (status_only 403)) =
     Inl (Exception (run_not_found_message 8938022468)) \<and>
   example_main (example_env None (status_only 404) (status_only 500)) =
     Inl (Exception (run_not_found_message 8938022468))"
  using repository_check_only_tests_404
      [of "example_env None (status_only 404) (status_only 403)"
        "''octocat/Hello-World''" 8938022468 "''https://api.github.com''"
        "''acme/infra''" "''build.yaml''"]
    repository_check_only_tests_404
      [of "example_env None (status_only 404) (status_only 500)"
        "''octocat/Hello-World''" 8938022468 "''https://api.github.com''"
        "''acme/infra''" "''build.yaml''"]
  by (simp add: example_main_def raises_for_status_def)

text \<open>
  The token enters the request headers only as the \<^verbatim>\<open>Authorization\<close> header, which is
  present exactly when the token is set and non-empty; the other headers do not depend on it.
\<close>

lemma authorization_iff_token:
  "(''Authorization'' \<in> fst ` set (request_headers token)) = truthy token"
  by (cases token) (auto simp: request_headers_def base_headers_def truthy_def)

lemma other_headers_fixed:
  "filter (\<lambda>h. fst h \<noteq> ''Authorization'') (request_headers token) = base_headers"
  by (cases token) (auto simp: request_headers_def base_headers_def)

text \<open>
  Once the requests are answered, the value of a non-empty token has no influence on how the
  run ends.
\<close>

lemma main_token_independent:
  assumes "t1 \<noteq> []" and "t2 \<noteq> []"
    and "http_get e (run_url api cr rid) (request_headers (Some t1)) =
         http_get e (run_url api cr rid) (request_headers (Some t2))"
    and "http_get e (repository_url api cr) (request_headers (Some t1)) =
         http_get e (repository_url api cr) (request_headers (Some t2))"
  shows "main (e\<lparr>GH_TOKEN := Some t1\<rparr>) cr rid R F api =
           main (e\<lparr>GH_TOKEN := Some t2\<rparr>) cr rid R F api"
proof -
  let ?e1 = "e\<lparr>GH_TOKEN := Some t1\<rparr>" and ?e2 = "e\<lparr>GH_TOKEN := Some t2\<rparr>"
  have run: "run_response ?e1 cr rid api = run_response ?e2 cr rid api"
    using assms(3) by (simp add: run_response_def)
  have repo: "repository_response ?e1 cr api = repository_response ?e2 cr api"
    using assms(4) by (simp add: repository_response_def)
  have cf: "classify_failure ?e1 cr rid api resp = classify_failure ?e2 cr rid api resp"
    for resp
    using assms(1,2) repo
    by (simp add: classify_failure_def repository_not_found_token_message_def Let_def)
  show ?thesis
    by (simp add: main_def run cf resolve_token report_token Let_def split: sum.splits)
qed

text \<open>
  C9: the token must never appear in an error message, and runs that differ only in the
  value of a non-empty token must end alike. The source says as much where it turns off the
  display of local variables (line 10: "Do not show locals to avoid displaying
  \<^verbatim>\<open>GH_TOKEN\<close>"), but it hands the token to \<^verbatim>\<open>requests.get\<close> unchecked and outside the
  \<^verbatim>\<open>try\<close>. With a token that ends in a line feed the run ends in the \<^verbatim>\<open>ValueError\<close> of
  \<^verbatim>\<open>http.client\<close>, and with a token that holds a carriage return in the
  \<^verbatim>\<open>InvalidHeader\<close> of \<^verbatim>\<open>requests\<close>; both messages quote the header value, token
  included, so two such tokens give two different messages although the transport would
  answer both runs alike.
\<close>

theorem token_with_line_break_is_displayed:
  "example_invoke (token_env (''ghp_one'' @ [CHR 0x0A])) =
     Inl (ValueError
       (''Invalid header value b'' @ [CHR 0x27] @ ''Bearer ghp_one'' @ [CHR 0x5C] @ ''n'' @
        [CHR 0x27])) \<and>
   example_invoke (token_env (''ghp_two'' @ [CHR 0x0A])) =
     Inl (ValueError
       (''Invalid header value b'' @ [CHR 0x27] @ ''Bearer ghp_two'' @ [CHR 0x5C] @ ''n'' @
        [CHR 0x27])) \<and>
   example_invoke (token_env (''ghp_one'' @ [CHR 0x0A])) \<noteq>
     example_invoke (token_env (''ghp_two'' @ [CHR 0x0A])) \<and>
   example_invoke (token_env (''ghp'' @ [CHR 0x0D] @ ''one'')) =
     Inl (InvalidHeader
       (''Invalid leading whitespace, reserved character(s), or return character(s) in header value: '' @
        [CHR 0x27] @ ''Bearer ghp'' @ [CHR 0x5C] @ ''rone'' @ [CHR 0x27])) \<and>
   example_invoke (token_env ''ghp_one'') =
     Inr \<lparr>printed = ''Reusable workflow version: abc123 (ref: v2.0.0)'' @ [CHR 0x0A],
          appended = None\<rparr>"
proof -
  have 1: "example_invoke (token_env (''ghp_one'' @ [CHR 0x0A])) =
     Inl (ValueError
       (''Invalid header value b'' @ [CHR 0x27] @ ''Bearer ghp_one'' @ [CHR 0x5C] @ ''n'' @
        [CHR 0x27]))"
    by (simp add: example_invoke_def invoke_def token_env_def example_env_def
        raised_by_get_def request_headers_def base_headers_def clean_header_value_def
        is_space_def escaped_def)
  have 2: "example_invoke (token_env (''ghp_two'' @ [CHR 0x0A])) =
     Inl (ValueError
       (''Invalid header value b'' @ [CHR 0x27] @ ''Bearer ghp_two'' @ [CHR 0x5C] @ ''n'' @
        [CHR 0x27]))"
    by (simp add: example_invoke_def invoke_def token_env_def example_env_def
        raised_by_get_def request_headers_def base_headers_def clean_header_value_def
        is_space_def escaped_def)
  have 3: "example_invoke (token_env (''ghp'' @ [CHR 0x0D] @ ''one'')) =
     Inl (InvalidHeader
       (''Invalid leading whitespace, reserved character(s), or return character(s) in header value: '' @
        [CHR 0x27] @ ''Bearer ghp'' @ [CHR 0x5C] @ ''rone'' @ [CHR 0x27]))"
    by (simp add: example_invoke_def invoke_def token_env_def example_env_def
        raised_by_get_def request_headers_def base_headers_def clean_header_value_def
        is_space_def escaped_def)
  have g: "raised_by_get (token_env ''ghp_one'') (request_headers (Some ''ghp_one'')) = None"
    by (simp add: raised_by_get_def request_headers_def base_headers_def
        clean_header_value_def is_space_def)
  have a: "all_workflows [build_v2] =
     Inr [\<lparr>sha = ''abc123'', repository = ''acme/infra'', file_name = ''build.yaml'',
           ref = ''v2.0.0''\<rparr>]"
    by simp
  have m: "main (token_env ''ghp_one'') ''octocat/Hello-World'' 8938022468 ''acme/infra''
       ''build.yaml'' ''https://api.github.com'' =
     Inr \<lparr>printed = ''Reusable workflow version: abc123 (ref: v2.0.0)'' @ [CHR 0x0A],
          appended = None\<rparr>"
    using a
    by (simp add: token_env_def example_env_def main_def run_response_def run_url_def
        raises_for_status_def ok_response_def resolve_def workflows_def
        choose_workflow_def pop_def report_def)
  have k: "GH_TOKEN (token_env ''ghp_one'') = Some ''ghp_one''"
    by (simp add: token_env_def)
  have 4: "example_invoke (token_env ''ghp_one'') =
     Inr \<lparr>printed = ''Reusable workflow version: abc123 (ref: v2.0.0)'' @ [CHR 0x0A],
          appended = None\<rparr>"
    by (simp add: example_invoke_def invoke_def k g m)
  from 1 2 have 5: "example_invoke (token_env (''ghp_one'' @ [CHR 0x0A])) \<noteq>
     example_invoke (token_env (''ghp_two'' @ [CHR 0x0A]))"
    by simp
  from 1 2 3 4 5 show ?thesis by blast
qed

end
